theory Spec2Isabelle
  imports Main
begin

section \<open>Python values\<close>

text \<open>
  The validator of \<^verbatim>\<open>petl/transform/validation.py\<close> works on dynamically typed
  data. A cell of a table, the target a getter extracts and the value a problem reports
  are values of one type. \<open>Record\<close> is the record view of a row: a tuple that also knows
  the field list it was built with.

  An exception is known to the validator by its class name only (\<^verbatim>\<open>type(e).__name__\<close>),
  so an exception is the string of that name. The callables of a constraint are taken to
  raise subclasses of \<^verbatim>\<open>Exception\<close>, the ones the \<^verbatim>\<open>except\<close> clauses catch.
\<close>

type_synonym exn = string

datatype val =
    VNone
  | VBool bool
  | VInt int
  | VStr string
  | VTuple "val list"
  | Record "val list" "string list"

text \<open>Truth value testing, as \<^verbatim>\<open>if x\<close> and \<^verbatim>\<open>assert x\<close> do it.\<close>

fun truthy :: "val \<Rightarrow> bool" where
  "truthy VNone = False"
| "truthy (VBool b) = b"
| "truthy (VInt n) = (n \<noteq> 0)"
| "truthy (VStr s) = (s \<noteq> [])"
| "truthy (VTuple vs) = (vs \<noteq> [])"
| "truthy (Record vs fs) = (vs \<noteq> [])"

section \<open>Constraints\<close>

text \<open>
  The \<^verbatim>\<open>field\<close> of a constraint is a field name or an ordered collection of field
  names. A constraint is a dictionary; the validator reads six keys of it, each of which
  may be missing. \<^verbatim>\<open>test\<close> returns nothing or raises; \<^verbatim>\<open>assertion\<close> returns a value or
  raises; a getter returns the target or raises.
\<close>

datatype field_spec = FName string | FNames "string list"

type_synonym getter = "val \<Rightarrow> exn + val"

record constraint =
  c_name :: "val option"
  c_field :: "field_spec option"
  c_optional :: "val option"
  c_getter :: "getter option"
  c_test :: "(val \<Rightarrow> exn option) option"
  c_assertion :: "(val \<Rightarrow> exn + val) option"

text \<open>\<^verbatim>\<open>if field\<close>: a missing field is \<^verbatim>\<open>None\<close>; an empty name and an empty collection
  are false as well.\<close>

fun field_truthy :: "field_spec option \<Rightarrow> bool" where
  "field_truthy None = False"
| "field_truthy (Some (FName s)) = (s \<noteq> [])"
| "field_truthy (Some (FNames ss)) = (ss \<noteq> [])"

text \<open>\<^verbatim>\<open>constraint['field'] in flds\<close>: \<open>flds\<close> is a list of strings, and a collection
  of names is equal to none of them.\<close>

fun field_in_flds :: "field_spec \<Rightarrow> string list \<Rightarrow> bool" where
  "field_in_flds (FName s) flds = (s \<in> set flds)"
| "field_in_flds (FNames ss) flds = False"

section \<open>Collaborators\<close>

text \<open>\<^verbatim>\<open>flds.index(s)\<close>, the first position of a name that occurs in the list.\<close>

fun index :: "string list \<Rightarrow> string \<Rightarrow> nat" where
  "index [] s = 0"
| "index (x # xs) s = (if x = s then 0 else Suc (index xs s))"

fun resolve :: "string list \<Rightarrow> string list \<Rightarrow> exn + nat list" where
  "resolve flds [] = Inr []"
| "resolve flds (s # ss) =
     (if s \<in> set flds
      then (case resolve flds ss of
              Inl e \<Rightarrow> Inl e
            | Inr is \<Rightarrow> Inr (index flds s # is))
      else Inl ''FieldSelectionError'')"

fun asindices :: "string list \<Rightarrow> field_spec \<Rightarrow> exn + nat list" where
  \<comment> \<open>Modelled from the spec: \<^verbatim>\<open>asindices\<close> of \<^verbatim>\<open>petl.util.base\<close> is not among the
      sources. Given a field list and one or more field names, it returns their positions
      or fails with a lookup error if any name is absent.\<close>
  "asindices flds (FName s) = resolve flds [s]"
| "asindices flds (FNames ss) = resolve flds ss"

fun getitem :: "val \<Rightarrow> nat \<Rightarrow> exn + val" where
  \<comment> \<open>Modelled from the spec: \<^verbatim>\<open>Record\<close> of \<^verbatim>\<open>petl.util.base\<close> is not among the
      sources. It is a value addressable by position; at a position the row does not
      have it gives \<^verbatim>\<open>None\<close>, as row 7 of the example in the docstring of
      \<^verbatim>\<open>validate\<close> shows. The other equations are Python's own indexing.\<close>
  "getitem (Record vs fs) i = Inr (if i < length vs then vs ! i else VNone)"
| "getitem (VTuple vs) i = (if i < length vs then Inr (vs ! i) else Inl ''IndexError'')"
| "getitem (VStr s) i = (if i < length s then Inr (VStr [s ! i]) else Inl ''IndexError'')"
| "getitem v i = Inl ''TypeError''"

fun getitems :: "val \<Rightarrow> nat list \<Rightarrow> exn + val list" where
  "getitems obj [] = Inr []"
| "getitems obj (i # is) =
     (case getitem obj i of
        Inl e \<Rightarrow> Inl e
      | Inr v \<Rightarrow> (case getitems obj is of
                   Inl e \<Rightarrow> Inl e
                 | Inr vs \<Rightarrow> Inr (v # vs)))"

text \<open>\<^verbatim>\<open>operator.itemgetter(*indices)\<close>: no index is a \<^verbatim>\<open>TypeError\<close> when the getter is
  built; one index gives the item itself; several give the tuple of the items.\<close>

fun itemgetter :: "nat list \<Rightarrow> exn + getter" where
  "itemgetter [] = Inl ''TypeError''"
| "itemgetter [i] = Inr (\<lambda>obj. getitem obj i)"
| "itemgetter is =
     Inr (\<lambda>obj. case getitems obj is of Inl e \<Rightarrow> Inl e | Inr vs \<Rightarrow> Inr (VTuple vs))"

section \<open>The report\<close>

text \<open>What the generator yields: first \<open>Outhdr\<close>, the tuple
  \<^verbatim>\<open>('name', 'row', 'field', 'value', 'error')\<close>, then one 5-tuple for each problem.\<close>

datatype out_row =
    Outhdr
  | Problem (p_name: val) (p_row: nat) (p_field: "field_spec option") (p_value: val)
      (p_error: exn)

section \<open>The store of constraint dictionaries\<close>

text \<open>
  The caller passes a list of references to dictionaries. The store is the list of all
  dictionaries, a reference is a position in it, and a new dictionary is put at its end.
  \<^verbatim>\<open>[dict(**c) for c in constraints]\<close> reads the caller's dictionaries and allocates one
  copy of each; the result is the new store and the references to the copies. A
  reference of the caller is a position that the store has (\<open>refs_ok\<close> below).
\<close>

type_synonym heap = "constraint list"

definition copy_dicts :: "heap \<Rightarrow> nat list \<Rightarrow> heap \<times> nat list" where
  "copy_dicts h refs =
     (h @ map (\<lambda>a. h ! a) refs, [length h ..< length h + length refs])"

text \<open>One round of the loop that sets the getters up: the dictionary after the round, or
  the exception that leaves the loop. \<^verbatim>\<open>constraint['optional']\<close> is looked up only when
  the field is not in the field list, and raises \<^verbatim>\<open>KeyError\<close> when the key is missing.\<close>

definition setup_getter :: "string list \<Rightarrow> constraint \<Rightarrow> exn + constraint" where
  "setup_getter flds c =
     (if c_getter c = None then
        (case c_field c of
           None \<Rightarrow> Inr c
         | Some f \<Rightarrow>
             (case (if \<not> field_in_flds f flds
                    then (case c_optional c of
                            None \<Rightarrow> Inl ''KeyError''
                          | Some opt \<Rightarrow> Inr (truthy opt))
                    else Inr False) of
                Inl e \<Rightarrow> Inl e
              | Inr True \<Rightarrow> Inr c
              | Inr False \<Rightarrow>
                  (case asindices flds f of
                     Inl e \<Rightarrow> Inl e
                   | Inr indices \<Rightarrow>
                       (case itemgetter indices of
                          Inl e \<Rightarrow> Inl e
                        | Inr g \<Rightarrow> Inr (c\<lparr>c_getter := Some g\<rparr>)))))
      else Inr c)"

text \<open>The loop itself, over the references to the working copies: the store it leaves,
  and the exception if one was raised.\<close>

fun setup_getters :: "string list \<Rightarrow> heap \<Rightarrow> nat list \<Rightarrow> heap \<times> exn option" where
  "setup_getters flds h [] = (h, None)"
| "setup_getters flds h (a # as) =
     (case setup_getter flds (h ! a) of
        Inl e \<Rightarrow> (h, Some e)
      | Inr c \<Rightarrow> setup_getters flds (h[a := c]) as)"

section \<open>The row scan\<close>

text \<open>The row length check of row \<open>i\<close> (counted from 0; reported as \<open>i + 1\<close>).\<close>

definition check_len :: "nat \<Rightarrow> nat \<Rightarrow> val list \<Rightarrow> out_row list" where
  "check_len expected_len i row =
     (let l = length row
      in if l = expected_len then []
         else [Problem (VStr ''__len__'') (i + 1) None (VInt (int l)) ''AssertionError''])"

text \<open>One constraint on one row: the body of the loop over the constraints.\<close>

definition check_constraint :: "nat \<Rightarrow> val \<Rightarrow> constraint \<Rightarrow> out_row list" where
  "check_constraint i row c =
     (let name = (case c_name c of None \<Rightarrow> VNone | Some n \<Rightarrow> n);
          field = c_field c;
          assertion = c_assertion c;
          test = c_test c;
          getter = (case c_getter c of None \<Rightarrow> (\<lambda>x. Inr x) | Some g \<Rightarrow> g)
      in case getter row of
           Inl e \<Rightarrow> [Problem name (i + 1) field VNone e]
         | Inr target \<Rightarrow>
             (let value = (if field_truthy field then target else VNone)
              in (case test of
                    None \<Rightarrow> []
                  | Some t \<Rightarrow>
                      (case t target of
                         None \<Rightarrow> []
                       | Some e \<Rightarrow> [Problem name (i + 1) field value e]))
                 @ (case assertion of
                      None \<Rightarrow> []
                    | Some a \<Rightarrow>
                        (case a target of
                           Inl e \<Rightarrow> [Problem name (i + 1) field value e]
                         | Inr r \<Rightarrow>
                             if truthy r then []
                             else [Problem name (i + 1) field value ''AssertionError'']))))"

fun check_constraints :: "heap \<Rightarrow> nat list \<Rightarrow> nat \<Rightarrow> val \<Rightarrow> out_row list" where
  "check_constraints h [] i row = []"
| "check_constraints h (a # as) i row =
     check_constraint i row (h ! a) @ check_constraints h as i row"

text \<open>The loop over \<^verbatim>\<open>enumerate(it)\<close>, the rows after the header.\<close>

fun generate :: "string list \<Rightarrow> heap \<Rightarrow> nat list \<Rightarrow> nat \<Rightarrow> val list list \<Rightarrow> out_row list" where
  "generate flds h constraints i [] = []"
| "generate flds h constraints i (row # it) =
     check_len (length flds) i row
     @ (if constraints \<noteq> [] then check_constraints h constraints i (Record row flds) else [])
     @ generate flds h constraints (i + 1) it"

section \<open>The generator\<close>

text \<open>
  A run of the generator to its end: the records it yields, the exception that ended it
  (if one did), and the store it leaves. A table is the list of its rows, the header
  first. \<^verbatim>\<open>text_type\<close> comes from \<^verbatim>\<open>petl.compat\<close>, which is not among the sources; it
  is the parameter \<open>tt\<close>. On a table without a header row \<^verbatim>\<open>next(it)\<close> raises
  \<^verbatim>\<open>StopIteration\<close> in the body of the generator, after the report header; how this
  reaches the consumer depends on the version of Python.
\<close>

record result =
  r_out :: "out_row list"
  r_raised :: "exn option"
  r_heap :: heap

definition header_problem :: out_row where
  "header_problem = Problem (VStr ''__header__'') 0 None VNone ''AssertionError''"

definition check_header ::
  "(val \<Rightarrow> string) \<Rightarrow> val list \<Rightarrow> val list option \<Rightarrow> out_row list \<times> string list" where
  "check_header tt actual_header expected_header =
     (case expected_header of
        None \<Rightarrow> ([], map tt actual_header)
      | Some eh \<Rightarrow>
          (let expected_flds = map tt eh;
               actual_flds = map tt actual_header
           in (if expected_flds = actual_flds then [] else [header_problem], expected_flds)))"

text \<open>\<^verbatim>\<open>if constraints:\<close> holds for a list that is not empty; only then are the
  dictionaries copied.\<close>

definition working_copies :: "heap \<Rightarrow> nat list option \<Rightarrow> heap \<times> nat list" where
  "working_copies h constraints =
     (case constraints of
        None \<Rightarrow> (h, [])
      | Some refs \<Rightarrow> if refs \<noteq> [] then copy_dicts h refs else (h, []))"

definition iterproblems ::
  "(val \<Rightarrow> string) \<Rightarrow> heap \<Rightarrow> val list list \<Rightarrow> nat list option \<Rightarrow> val list option \<Rightarrow> result" where
  "iterproblems tt h table constraints expected_header =
     (case table of
        [] \<Rightarrow> \<lparr>r_out = [Outhdr], r_raised = Some ''StopIteration'', r_heap = h\<rparr>
      | actual_header # it \<Rightarrow>
          (let (hdr_out, flds) = check_header tt actual_header expected_header;
               (h1, work) = working_copies h constraints;
               (h2, e) = setup_getters flds h1 work
           in case e of
                Some x \<Rightarrow> \<lparr>r_out = Outhdr # hdr_out, r_raised = Some x, r_heap = h2\<rparr>
              | None \<Rightarrow>
                  \<lparr>r_out = Outhdr # hdr_out @ generate flds h2 work 0 it,
                   r_raised = None, r_heap = h2\<rparr>))"

text \<open>The view keeps the three arguments; each iteration starts the generator anew, on
  the store as it is then.\<close>

record ProblemsView =
  pv_table :: "val list list"
  pv_constraints :: "nat list option"
  pv_header :: "val list option"

definition validate :: "val list list \<Rightarrow> nat list option \<Rightarrow> val list option \<Rightarrow> ProblemsView" where
  "validate table constraints header =
     \<lparr>pv_table = table, pv_constraints = constraints, pv_header = header\<rparr>"

definition iter :: "(val \<Rightarrow> string) \<Rightarrow> heap \<Rightarrow> ProblemsView \<Rightarrow> result" where
  "iter tt h pv = iterproblems tt h (pv_table pv) (pv_constraints pv) (pv_header pv)"

section \<open>The run on dictionaries as values\<close>

text \<open>
  The same two loops on the list of the working copies itself, without the store: what
  the store-passing loops compute, as the lemmas below show. \<open>dicts\<close> is the list of
  the caller's dictionaries.
\<close>

definition dicts :: "heap \<Rightarrow> nat list option \<Rightarrow> constraint list" where
  "dicts h constraints = (case constraints of None \<Rightarrow> [] | Some refs \<Rightarrow> map ((!) h) refs)"

fun setup_list :: "string list \<Rightarrow> constraint list \<Rightarrow> constraint list \<times> exn option" where
  "setup_list flds [] = ([], None)"
| "setup_list flds (c # cs) =
     (case setup_getter flds c of
        Inl e \<Rightarrow> (c # cs, Some e)
      | Inr c' \<Rightarrow> (c' # fst (setup_list flds cs), snd (setup_list flds cs)))"

fun scan :: "string list \<Rightarrow> constraint list \<Rightarrow> nat \<Rightarrow> val list list \<Rightarrow> out_row list" where
  "scan flds cs i [] = []"
| "scan flds cs i (row # it) =
     check_len (length flds) i row
     @ concat (map (check_constraint i (Record row flds)) cs)
     @ scan flds cs (i + 1) it"

text \<open>The working copy of a dictionary after its round of the set-up loop (the dictionary
  as it was when the round raises).\<close>

definition with_getter :: "string list \<Rightarrow> constraint \<Rightarrow> constraint" where
  "with_getter flds c = (case setup_getter flds c of Inl e \<Rightarrow> c | Inr c' \<Rightarrow> c')"

text \<open>Every reference of the caller points into the store.\<close>

definition refs_ok :: "heap \<Rightarrow> nat list option \<Rightarrow> bool" where
  "refs_ok h constraints =
     (case constraints of None \<Rightarrow> True | Some refs \<Rightarrow> list_all (\<lambda>a. a < length h) refs)"

section \<open>Callables that keep state\<close>

text \<open>
  A getter, a test or an assertion is a Python object, and \<^verbatim>\<open>dict(**c)\<close> copies the
  dictionary, not the callables in it: every iteration of a view calls the same objects,
  and they may keep state between calls. In the definitions above a callable is a
  function of its argument. In the ones below it also reads and changes a state \<open>'s\<close>,
  which stands for whatever the caller's callables keep. The state is passed from call to
  call in the order in which the generator makes the calls, and a callable that raises
  keeps the changes it made. The set-up of the getters calls none of them; a getter it
  builds leaves the state alone. Apart from the state the definitions are those above.
  \<open>stateless\<close> is a constraint whose callables are functions, seen as one whose callables
  leave the state alone.
\<close>

type_synonym 's st_getter = "val \<Rightarrow> 's \<Rightarrow> (exn + val) \<times> 's"

record 's st_constraint =
  st_name :: "val option"
  st_field :: "field_spec option"
  st_optional :: "val option"
  st_getter :: "'s st_getter option"
  st_test :: "(val \<Rightarrow> 's \<Rightarrow> exn option \<times> 's) option"
  st_assertion :: "(val \<Rightarrow> 's \<Rightarrow> (exn + val) \<times> 's) option"

type_synonym 's st_heap = "'s st_constraint list"

definition st_copy_dicts :: "'s st_heap \<Rightarrow> nat list \<Rightarrow> 's st_heap \<times> nat list" where
  "st_copy_dicts h refs =
     (h @ map (\<lambda>a. h ! a) refs, [length h ..< length h + length refs])"

definition st_working_copies :: "'s st_heap \<Rightarrow> nat list option \<Rightarrow> 's st_heap \<times> nat list" where
  "st_working_copies h constraints =
     (case constraints of
        None \<Rightarrow> (h, [])
      | Some refs \<Rightarrow> if refs \<noteq> [] then st_copy_dicts h refs else (h, []))"

definition st_setup_getter :: "string list \<Rightarrow> 's st_constraint \<Rightarrow> exn + 's st_constraint" where
  "st_setup_getter flds c =
     (if st_getter c = None then
        (case st_field c of
           None \<Rightarrow> Inr c
         | Some f \<Rightarrow>
             (case (if \<not> field_in_flds f flds
                    then (case st_optional c of
                            None \<Rightarrow> Inl ''KeyError''
                          | Some opt \<Rightarrow> Inr (truthy opt))
                    else Inr False) of
                Inl e \<Rightarrow> Inl e
              | Inr True \<Rightarrow> Inr c
              | Inr False \<Rightarrow>
                  (case asindices flds f of
                     Inl e \<Rightarrow> Inl e
                   | Inr indices \<Rightarrow>
                       (case itemgetter indices of
                          Inl e \<Rightarrow> Inl e
                        | Inr g \<Rightarrow> Inr (c\<lparr>st_getter := Some (\<lambda>obj s. (g obj, s))\<rparr>)))))
      else Inr c)"

fun st_setup_getters ::
  "string list \<Rightarrow> 's st_heap \<Rightarrow> nat list \<Rightarrow> 's st_heap \<times> exn option" where
  "st_setup_getters flds h [] = (h, None)"
| "st_setup_getters flds h (a # as) =
     (case st_setup_getter flds (h ! a) of
        Inl e \<Rightarrow> (h, Some e)
      | Inr c \<Rightarrow> st_setup_getters flds (h[a := c]) as)"

definition st_check_constraint ::
  "nat \<Rightarrow> val \<Rightarrow> 's st_constraint \<Rightarrow> 's \<Rightarrow> out_row list \<times> 's" where
  "st_check_constraint i row c s =
     (let name = (case st_name c of None \<Rightarrow> VNone | Some n \<Rightarrow> n);
          field = st_field c;
          assertion = st_assertion c;
          test = st_test c;
          getter = (case st_getter c of None \<Rightarrow> (\<lambda>x s. (Inr x, s)) | Some g \<Rightarrow> g)
      in case getter row s of
           (Inl e, s1) \<Rightarrow> ([Problem name (i + 1) field VNone e], s1)
         | (Inr target, s1) \<Rightarrow>
             (let value = (if field_truthy field then target else VNone)
              in case (case test of
                         None \<Rightarrow> ([], s1)
                       | Some t \<Rightarrow>
                           (case t target s1 of
                              (None, s2) \<Rightarrow> ([], s2)
                            | (Some e, s2) \<Rightarrow> ([Problem name (i + 1) field value e], s2))) of
                   (out_test, s2) \<Rightarrow>
                     (case assertion of
                        None \<Rightarrow> (out_test, s2)
                      | Some a \<Rightarrow>
                          (case a target s2 of
                             (Inl e, s3) \<Rightarrow>
                               (out_test @ [Problem name (i + 1) field value e], s3)
                           | (Inr r, s3) \<Rightarrow>
                               (if truthy r then out_test
                                else out_test
                                     @ [Problem name (i + 1) field value ''AssertionError''],
                                s3)))))"

fun st_check_constraints ::
  "'s st_heap \<Rightarrow> nat list \<Rightarrow> nat \<Rightarrow> val \<Rightarrow> 's \<Rightarrow> out_row list \<times> 's" where
  "st_check_constraints h [] i row s = ([], s)"
| "st_check_constraints h (a # as) i row s =
     (case st_check_constraint i row (h ! a) s of
        (out1, s1) \<Rightarrow>
          (case st_check_constraints h as i row s1 of
             (out2, s2) \<Rightarrow> (out1 @ out2, s2)))"

fun st_generate ::
  "string list \<Rightarrow> 's st_heap \<Rightarrow> nat list \<Rightarrow> nat \<Rightarrow> val list list \<Rightarrow> 's \<Rightarrow> out_row list \<times> 's" where
  "st_generate flds h constraints i [] s = ([], s)"
| "st_generate flds h constraints i (row # it) s =
     (case (if constraints \<noteq> [] then st_check_constraints h constraints i (Record row flds) s
            else ([], s)) of
        (out1, s1) \<Rightarrow>
          (case st_generate flds h constraints (i + 1) it s1 of
             (out2, s2) \<Rightarrow> (check_len (length flds) i row @ out1 @ out2, s2)))"

record 's st_result =
  st_out :: "out_row list"
  st_raised :: "exn option"
  st_store :: "'s st_heap"
  st_state :: 's

definition st_iterproblems ::
  "(val \<Rightarrow> string) \<Rightarrow> 's st_heap \<Rightarrow> 's \<Rightarrow> val list list \<Rightarrow> nat list option \<Rightarrow> val list option
   \<Rightarrow> 's st_result" where
  "st_iterproblems tt h s table constraints expected_header =
     (case table of
        [] \<Rightarrow> \<lparr>st_out = [Outhdr], st_raised = Some ''StopIteration'', st_store = h, st_state = s\<rparr>
      | actual_header # it \<Rightarrow>
          (let (hdr_out, flds) = check_header tt actual_header expected_header;
               (h1, work) = st_working_copies h constraints;
               (h2, e) = st_setup_getters flds h1 work
           in case e of
                Some x \<Rightarrow>
                  \<lparr>st_out = Outhdr # hdr_out, st_raised = Some x, st_store = h2, st_state = s\<rparr>
              | None \<Rightarrow>
                  (case st_generate flds h2 work 0 it s of
                     (out, s') \<Rightarrow>
                       \<lparr>st_out = Outhdr # hdr_out @ out, st_raised = None, st_store = h2,
                        st_state = s'\<rparr>)))"

definition st_iter :: "(val \<Rightarrow> string) \<Rightarrow> 's st_heap \<Rightarrow> 's \<Rightarrow> ProblemsView \<Rightarrow> 's st_result" where
  "st_iter tt h s pv = st_iterproblems tt h s (pv_table pv) (pv_constraints pv) (pv_header pv)"

definition stateless :: "constraint \<Rightarrow> 's st_constraint" where
  "stateless c =
     \<lparr>st_name = c_name c, st_field = c_field c, st_optional = c_optional c,
      st_getter = map_option (\<lambda>g obj s. (g obj, s)) (c_getter c),
      st_test = map_option (\<lambda>t v s. (t v, s)) (c_test c),
      st_assertion = map_option (\<lambda>a v s. (a v, s)) (c_assertion c)\<rparr>"

section \<open>Example data\<close>

text \<open>An instance of \<^verbatim>\<open>text_type\<close> for tables whose header cells are text: a text is
  returned as it is. Cells of other types do not occur in the headers below.\<close>

fun text_of :: "val \<Rightarrow> string" where
  "text_of (VStr s) = s"
| "text_of v = []"

text \<open>\<^verbatim>\<open>lambda v: v > 0\<close>\<close>

fun positive :: "val \<Rightarrow> exn + val" where
  "positive (VInt n) = Inr (VBool (0 < n))"
| "positive (VBool b) = Inr (VBool b)"
| "positive v = Inl ''TypeError''"

definition foo_pos :: constraint where
  "foo_pos = \<lparr>c_name = Some (VStr ''foo_pos''), c_field = Some (FName ''foo''),
     c_optional = None, c_getter = None, c_test = None, c_assertion = Some positive\<rparr>"

definition foo_table :: "val list list" where
  "foo_table =
     [[VStr ''foo'', VStr ''bar''],
      [VInt 1, VStr ''a''],
      [VInt (- 1), VStr ''b''],
      [VInt 2, VStr ''c'', VStr ''extra'']]"

definition ac_table :: "val list list" where
  "ac_table = [[VStr ''a'', VStr ''c''], [VInt 1, VInt 2]]"

definition ab_table :: "val list list" where
  "ab_table = [[VStr ''a'', VStr ''b''], [VInt 1, VInt 2]]"

text \<open>\<^verbatim>\<open>lambda v: v in ['Y', 'N']\<close>, the assertion of \<^verbatim>\<open>baz_enum\<close> in the docstring.\<close>

definition in_YN :: "val \<Rightarrow> exn + val" where
  "in_YN v = Inr (VBool (v = VStr ''Y'' \<or> v = VStr ''N''))"

definition baz_optional :: constraint where
  "baz_optional = \<lparr>c_name = Some (VStr ''baz_enum''), c_field = Some (FName ''baz''),
     c_optional = Some (VBool True), c_getter = None, c_test = None,
     c_assertion = Some in_YN\<rparr>"

definition y_table :: "val list list" where
  "y_table = [[VStr ''foo''], [VStr ''Y'']]"

text \<open>A constraint on the two fields \<^verbatim>\<open>('a', 'b')\<close> with no \<^verbatim>\<open>optional\<close> key, without
  and with a getter of the caller's own (\<^verbatim>\<open>lambda row: row\<close>).\<close>

definition ab_pair :: constraint where
  "ab_pair = \<lparr>c_name = Some (VStr ''ab''), c_field = Some (FNames [''a'', ''b'']),
     c_optional = None, c_getter = None, c_test = None, c_assertion = Some in_YN\<rparr>"

definition ab_pair_getter :: constraint where
  "ab_pair_getter = ab_pair\<lparr>c_getter := Some (\<lambda>row. Inr row)\<rparr>"

text \<open>A test that raises \<^verbatim>\<open>ValueError\<close> on every value; a constraint with this test, the
  assertion \<^verbatim>\<open>v > 0\<close> and the getter \<^verbatim>\<open>itemgetter(0)\<close>; and one whose getter raises
  \<^verbatim>\<open>KeyError\<close> on every row.\<close>

definition reject_test :: "val \<Rightarrow> exn option" where
  "reject_test v = Some ''ValueError''"


definition foo_broken :: constraint where
  "foo_broken = \<lparr>c_name = Some (VStr ''foo_broken''), c_field = Some (FName ''foo''),
     c_optional = None, c_getter = Some (\<lambda>obj. Inl ''KeyError''), c_test = Some reject_test,
     c_assertion = Some positive\<rparr>"

text \<open>A second constraint for the table of \<^verbatim>\<open>foo\<close> and \<^verbatim>\<open>bar\<close>, and a table whose second
  row is too long and fails both constraints.\<close>

definition bar_yn :: constraint where
  "bar_yn = \<lparr>c_name = Some (VStr ''bar_yn''), c_field = Some (FName ''bar''),
     c_optional = None, c_getter = None, c_test = None, c_assertion = Some in_YN\<rparr>"

definition long_table :: "val list list" where
  "long_table =
     [[VStr ''foo'', VStr ''bar''],
      [VInt 1, VStr ''Y''],
      [VInt (- 1), VStr ''x'', VStr ''extra'']]"

text \<open>A test that raises \<^verbatim>\<open>ValueError\<close> on its first call only; the state is the flag
  that says that it has been called:
  \<^verbatim>\<open>seen = []\<close>,
  \<^verbatim>\<open>def once(v): if not seen: seen.append(1); raise ValueError\<close>.\<close>

definition once :: "val \<Rightarrow> bool \<Rightarrow> exn option \<times> bool" where
  "once v seen = (if seen then None else Some ''ValueError'', True)"

definition foo_once :: "bool st_constraint" where
  "foo_once = \<lparr>st_name = Some (VStr ''foo_once''), st_field = Some (FName ''foo''),
     st_optional = None, st_getter = None, st_test = Some once, st_assertion = None\<rparr>"

definition one_table :: "val list list" where
  "one_table = [[VStr ''foo''], [VInt 1]]"

section \<open>The loops on the store and on the list agree\<close>

lemma setup_list_length: "length (fst (setup_list flds cs)) = length cs"
  by (induction cs) (auto split: sum.splits)

lemma setup_getters_length: "length (fst (setup_getters flds h as)) = length h"
  by (induction as arbitrary: h) (auto split: sum.splits)

lemma setup_getters_frame:
  "\<forall>a\<in>set as. n \<le> a \<Longrightarrow> take n (fst (setup_getters flds h as)) = take n h"
  by (induction as arbitrary: h) (auto split: sum.splits)

lemma setup_getters_append:
  "setup_getters flds (h @ ds @ cs) [length h + length ds ..< length h + length ds + length cs]
   = (h @ ds @ fst (setup_list flds cs), snd (setup_list flds cs))"
proof (induction cs arbitrary: ds)
  case Nil
  then show ?case by simp
next
  case (Cons c cs)
  have nth_c: "(h @ ds @ c # cs) ! (length h + length ds) = c"
    by (simp add: nth_append)
  have upd: "(h @ ds @ c # cs)[length h + length ds := c'] = h @ (ds @ [c']) @ cs" for c'
    by (simp add: list_update_append)
  have rng: "[length h + length ds ..< length h + length ds + length (c # cs)]
             = (length h + length ds)
               # [length h + length (ds @ [c]) ..< length h + length (ds @ [c]) + length cs]"
    by (simp add: upt_rec)
  show ?case
  proof (cases "setup_getter flds c")
    case (Inl e)
    then show ?thesis by (simp only: rng setup_getters.simps nth_c) simp
  next
    case (Inr c')
    have "setup_getters flds (h @ ds @ c # cs)
            [length h + length ds ..< length h + length ds + length (c # cs)]
          = setup_getters flds (h @ (ds @ [c']) @ cs)
            [length h + length (ds @ [c']) ..< length h + length (ds @ [c']) + length cs]"
      using Inr by (simp only: rng setup_getters.simps nth_c upd) simp
    also have "\<dots> = (h @ (ds @ [c']) @ fst (setup_list flds cs), snd (setup_list flds cs))"
      by (rule Cons.IH)
    finally show ?thesis using Inr by simp
  qed
qed

lemma setup_getters_copies:
  "setup_getters flds (h @ cs) [length h ..< length h + length cs]
   = (h @ fst (setup_list flds cs), snd (setup_list flds cs))"
  using setup_getters_append [of flds h "[]" cs] by simp

lemma check_constraints_concat:
  "check_constraints h as i row = concat (map (\<lambda>a. check_constraint i row (h ! a)) as)"
  by (induction as) auto

lemma map_nth_copies: "map ((!) (h @ cs)) [length h ..< length h + length cs] = cs"
  by (rule nth_equalityI) (simp_all add: nth_append)

lemma generate_scan:
  "generate flds h work i it = scan flds (map ((!) h) work) i it"
  by (induction it arbitrary: i) (auto simp: check_constraints_concat comp_def)

lemma generate_copies:
  "generate flds (h @ cs) [length h ..< length h + length cs] i it = scan flds cs i it"
  by (simp only: generate_scan map_nth_copies)

lemma working_copies_dicts:
  "working_copies h constraints
   = (h @ dicts h constraints, [length h ..< length h + length (dicts h constraints)])"
  by (auto simp: working_copies_def dicts_def copy_dicts_def split: option.splits)

lemma iterproblems_Cons:
  "iterproblems tt h (ah # it) constraints eh =
     (let flds = snd (check_header tt ah eh);
          cs = fst (setup_list flds (dicts h constraints));
          e = snd (setup_list flds (dicts h constraints))
      in \<lparr>r_out = Outhdr # fst (check_header tt ah eh)
                    @ (if e = None then scan flds cs 0 it else []),
          r_raised = e, r_heap = h @ cs\<rparr>)"
proof -
  obtain ho flds where ch: "check_header tt ah eh = (ho, flds)"
    by (cases "check_header tt ah eh")
  let ?cs = "dicts h constraints"
  have len: "length (fst (setup_list flds ?cs)) = length ?cs"
    by (rule setup_list_length)
  show ?thesis
    by (cases "snd (setup_list flds ?cs)")
       (simp_all add: iterproblems_def ch working_copies_dicts setup_getters_copies
          generate_copies [of flds h "fst (setup_list flds ?cs)", unfolded len] Let_def)
qed

lemma iterproblems_Nil:
  "iterproblems tt h [] constraints eh
   = \<lparr>r_out = [Outhdr], r_raised = Some ''StopIteration'', r_heap = h\<rparr>"
  by (simp add: iterproblems_def)

section \<open>Where the problems of a row are\<close>

lemma check_len_rows:
  "p \<in> set (check_len n i row) \<Longrightarrow> p \<noteq> Outhdr \<and> p_row p = Suc i"
  by (auto simp: check_len_def Let_def split: if_splits)

lemma check_constraint_all:
  "list_all (\<lambda>p. p \<noteq> Outhdr \<and> p_row p = Suc i) (check_constraint i row c)"
  by (simp add: check_constraint_def Let_def split: sum.split option.split)

lemma check_constraint_rows:
  "p \<in> set (check_constraint i row c) \<Longrightarrow> p \<noteq> Outhdr \<and> p_row p = Suc i"
  using check_constraint_all [of i row c] by (simp add: list_all_iff)

lemma sorted_same_row: "\<forall>p\<in>set ps. p_row p = n \<Longrightarrow> sorted (map p_row ps)"
  by (induction ps) auto

lemma scan_rows:
  "p \<in> set (scan flds cs i it) \<Longrightarrow> p \<noteq> Outhdr \<and> i < p_row p \<and> p_row p \<le> i + length it"
proof (induction it arbitrary: i)
  case Nil
  then show ?case by simp
next
  case (Cons row it)
  from Cons.prems consider
      "p \<in> set (check_len (length flds) i row)"
    | c where "c \<in> set cs" "p \<in> set (check_constraint i (Record row flds) c)"
    | "p \<in> set (scan flds cs (Suc i) it)"
    by auto
  then show ?case
  proof cases
    case 1
    then show ?thesis using check_len_rows by fastforce
  next
    case 2
    then show ?thesis using check_constraint_rows by fastforce
  next
    case 3
    then show ?thesis using Cons.IH [of "Suc i"] by fastforce
  qed
qed

lemma row_problems_rows:
  "p \<in> set (check_len n i row @ concat (map (check_constraint i R) cs))
   \<Longrightarrow> p \<noteq> Outhdr \<and> p_row p = Suc i"
  using check_len_rows check_constraint_rows by fastforce

lemma sorted_map_append:
  "sorted (map f xs) \<Longrightarrow> sorted (map f ys) \<Longrightarrow> \<forall>x\<in>set xs. \<forall>y\<in>set ys. f x \<le> f y
   \<Longrightarrow> sorted (map f (xs @ ys))"
  by (simp add: sorted_append)

lemma scan_Cons:
  "scan flds cs i (row # it)
   = (check_len (length flds) i row @ concat (map (check_constraint i (Record row flds)) cs))
     @ scan flds cs (Suc i) it"
  by simp

lemma sorted_scan: "sorted (map p_row (scan flds cs i it))"
proof (induction it arbitrary: i)
  case Nil
  then show ?case by simp
next
  case (Cons row it)
  define here where
    "here = check_len (length flds) i row @ concat (map (check_constraint i (Record row flds)) cs)"
  have here: "\<forall>p\<in>set here. p_row p = Suc i"
    unfolding here_def using row_problems_rows by blast
  have "sorted (map p_row here)"
    using here by (rule sorted_same_row)
  moreover have "\<forall>p\<in>set here. \<forall>q\<in>set (scan flds cs (Suc i) it). p_row p \<le> p_row q"
    using here scan_rows [of _ flds cs "Suc i" it] by fastforce
  ultimately have "sorted (map p_row (here @ scan flds cs (Suc i) it))"
    using Cons.IH [of "Suc i"] by (intro sorted_map_append)
  then show ?case by (simp only: scan_Cons here_def)
qed

lemma filter_scan:
  "k < length it \<Longrightarrow>
   filter (\<lambda>p. p_row p = Suc (i + k)) (scan flds cs i it)
   = check_len (length flds) (i + k) (it ! k)
     @ concat (map (check_constraint (i + k) (Record (it ! k) flds)) cs)"
proof (induction it arbitrary: i k)
  case Nil
  then show ?case by simp
next
  case (Cons row it)
  define here where
    "here = check_len (length flds) i row @ concat (map (check_constraint i (Record row flds)) cs)"
  have here: "\<forall>p\<in>set here. p_row p = Suc i"
    unfolding here_def using row_problems_rows by blast
  have sc: "scan flds cs i (row # it) = here @ scan flds cs (Suc i) it"
    by (simp only: scan_Cons here_def)
  show ?case
  proof (cases k)
    case 0
    have "filter (\<lambda>p. p_row p = Suc i) here = here"
      using here by (simp only: filter_id_conv)
    moreover have "filter (\<lambda>p. p_row p = Suc i) (scan flds cs (Suc i) it) = []"
      using scan_rows [of _ flds cs "Suc i" it] by (fastforce simp: filter_empty_conv)
    ultimately show ?thesis using 0 by (simp add: sc here_def)
  next
    case (Suc k')
    have "filter (\<lambda>p. p_row p = Suc (i + k)) here = []"
      using here Suc by (fastforce simp: filter_empty_conv)
    moreover have "filter (\<lambda>p. p_row p = Suc (Suc i + k')) (scan flds cs (Suc i) it)
      = check_len (length flds) (Suc i + k') (it ! k')
        @ concat (map (check_constraint (Suc i + k') (Record (it ! k') flds)) cs)"
      using Cons.IH [of k' "Suc i"] Cons.prems Suc by simp
    ultimately show ?thesis using Suc by (simp only: sc filter_append) simp
  qed
qed

lemma check_header_cases:
  "fst (check_header tt ah eh) = [] \<or> fst (check_header tt ah eh) = [header_problem]"
  by (auto simp: check_header_def Let_def split: option.splits)

lemma dicts_append: "refs_ok h constraints \<Longrightarrow> dicts (h @ cs) constraints = dicts h constraints"
  by (auto simp: refs_ok_def dicts_def list_all_iff nth_append split: option.splits)

lemma setup_list_raises:
  "list_all (\<lambda>c. \<not> isl (setup_getter flds c)) pre \<Longrightarrow> setup_getter flds c = Inl e
   \<Longrightarrow> snd (setup_list flds (pre @ c # post)) = Some e"
  by (induction pre) (auto split: sum.splits)

lemma setup_getter_KeyError:
  "c_getter c = None \<Longrightarrow> c_field c = Some f \<Longrightarrow> \<not> field_in_flds f flds \<Longrightarrow> c_optional c = None
   \<Longrightarrow> setup_getter flds c = Inl ''KeyError''"
  by (simp add: setup_getter_def)

lemma setup_list_pointwise:
  "snd (setup_list flds cs) = None \<Longrightarrow> fst (setup_list flds cs) = map (with_getter flds) cs"
  by (induction cs) (auto simp: with_getter_def split: sum.splits)

lemma dicts_refs:
  "dicts h constraints = map ((!) h) (case constraints of None \<Rightarrow> [] | Some refs \<Rightarrow> refs)"
  by (simp add: dicts_def split: option.splits)

lemma setup_getter_shape:
  "setup_getter flds c = Inr c' \<Longrightarrow> c' = c \<or> (\<exists>g. c' = c\<lparr>c_getter := Some g\<rparr>)"
  unfolding setup_getter_def
  by (simp split: if_split_asm option.split_asm sum.split_asm bool.split_asm) blast+

lemma setup_getter_keeps:
  "setup_getter flds c = Inr c' \<Longrightarrow>
   c_name c' = c_name c \<and> c_field c' = c_field c \<and> c_test c' = c_test c
   \<and> c_assertion c' = c_assertion c"
  using setup_getter_shape [of flds c c'] by auto

lemma with_getter_keeps:
  "c_name (with_getter flds c) = c_name c \<and> c_field (with_getter flds c) = c_field c
   \<and> c_test (with_getter flds c) = c_test c \<and> c_assertion (with_getter flds c) = c_assertion c"
proof (cases "setup_getter flds c")
  case (Inl e)
  then show ?thesis by (simp add: with_getter_def)
next
  case (Inr c')
  then show ?thesis using setup_getter_keeps [OF Inr] by (simp add: with_getter_def)
qed

lemma check_constraint_names:
  "list_all (\<lambda>p. p_name p = (case c_name c of None \<Rightarrow> VNone | Some n \<Rightarrow> n) \<and> p_field p = c_field c)
     (check_constraint i row c)"
  by (simp add: check_constraint_def Let_def split: sum.split option.split)

section \<open>Callables that leave the state alone\<close>

lemma st_setup_getter_stateless:
  "st_setup_getter flds (stateless c)
   = (case setup_getter flds c of Inl e \<Rightarrow> Inl e | Inr c' \<Rightarrow> Inr (stateless c'))"
  by (simp add: st_setup_getter_def setup_getter_def stateless_def
      split: option.split sum.split bool.split)

lemma st_setup_getters_stateless:
  "\<forall>a\<in>set as. a < length h \<Longrightarrow>
   st_setup_getters flds (map stateless h) as
   = (map stateless (fst (setup_getters flds h as)), snd (setup_getters flds h as))"
proof (induction as arbitrary: h)
  case Nil
  then show ?case by simp
next
  case (Cons a as)
  have a: "a < length h" using Cons.prems by simp
  show ?case
  proof (cases "setup_getter flds (h ! a)")
    case (Inl e)
    then show ?thesis using a by (simp add: st_setup_getter_stateless)
  next
    case (Inr c')
    have "\<forall>b\<in>set as. b < length (h[a := c'])" using Cons.prems by simp
    from Cons.IH [OF this] show ?thesis
      using a Inr by (simp add: st_setup_getter_stateless map_update)
  qed
qed

lemma st_check_constraint_stateless:
  "st_check_constraint i row (stateless c) s = (check_constraint i row c, s)"
  by (simp add: st_check_constraint_def check_constraint_def stateless_def Let_def
      split: option.split sum.split)

lemma st_check_constraints_stateless:
  "\<forall>a\<in>set as. a < length h \<Longrightarrow>
   st_check_constraints (map stateless h) as i row s = (check_constraints h as i row, s)"
  by (induction as) (simp_all add: st_check_constraint_stateless)

lemma st_generate_stateless:
  "\<forall>a\<in>set work. a < length h \<Longrightarrow>
   st_generate flds (map stateless h) work i it s = (generate flds h work i it, s)"
  by (induction it arbitrary: i) (auto simp: st_check_constraints_stateless)

lemma st_working_copies_stateless:
  "refs_ok h constraints \<Longrightarrow>
   st_working_copies (map stateless h) constraints
   = (map stateless (fst (working_copies h constraints)), snd (working_copies h constraints))"
  by (auto simp: st_working_copies_def working_copies_def st_copy_dicts_def copy_dicts_def
      refs_ok_def list_all_iff split: option.splits)

lemma working_copies_in_range:
  "\<forall>a\<in>set (snd (working_copies h constraints)). a < length (fst (working_copies h constraints))"
  by (auto simp: working_copies_def copy_dicts_def split: option.splits)

lemma st_iterproblems_stateless:
  assumes "refs_ok h constraints"
  shows "st_iterproblems tt (map stateless h) s table constraints eh
         = \<lparr>st_out = r_out (iterproblems tt h table constraints eh),
            st_raised = r_raised (iterproblems tt h table constraints eh),
            st_store = map stateless (r_heap (iterproblems tt h table constraints eh)),
            st_state = s\<rparr>"
proof (cases table)
  case Nil
  then show ?thesis by (simp add: st_iterproblems_def iterproblems_def)
next
  case (Cons ah it)
  obtain ho flds where ch: "check_header tt ah eh = (ho, flds)"
    by (cases "check_header tt ah eh")
  obtain h1 work where wc: "working_copies h constraints = (h1, work)"
    by (cases "working_copies h constraints")
  obtain h2 e where sg: "setup_getters flds h1 work = (h2, e)"
    by (cases "setup_getters flds h1 work")
  have rng: "\<forall>a\<in>set work. a < length h1"
    using working_copies_in_range [of h constraints] by (simp add: wc)
  have swc: "st_working_copies (map stateless h) constraints = (map stateless h1, work)"
    using st_working_copies_stateless [OF assms] by (simp add: wc)
  have ssg: "st_setup_getters flds (map stateless h1) work = (map stateless h2, e)"
    using st_setup_getters_stateless [OF rng, of flds] by (simp add: sg)
  have len: "length h2 = length h1"
    using setup_getters_length [of flds h1 work] by (simp add: sg)
  have gen: "st_generate flds (map stateless h2) work 0 it s = (generate flds h2 work 0 it, s)"
    using rng by (intro st_generate_stateless) (simp add: len)
  show ?thesis
    by (cases e) (simp_all add: Cons st_iterproblems_def iterproblems_def ch wc sg swc ssg gen)
qed

lemma refs_ok_append: "refs_ok h constraints \<Longrightarrow> refs_ok (h @ cs) constraints"
  by (auto simp: refs_ok_def list_all_iff split: option.splits)

lemma iterproblems_heap_append:
  "\<exists>cs. r_heap (iterproblems tt h table constraints eh) = h @ cs"
  by (cases table) (simp_all add: iterproblems_Nil iterproblems_Cons Let_def)

lemma iterproblems_on_longer_store:
  assumes "refs_ok h constraints"
  shows "r_out (iterproblems tt (h @ cs) table constraints eh)
           = r_out (iterproblems tt h table constraints eh)
       \<and> r_raised (iterproblems tt (h @ cs) table constraints eh)
           = r_raised (iterproblems tt h table constraints eh)"
proof (cases table)
  case Nil
  then show ?thesis by (simp add: iterproblems_Nil)
next
  case (Cons ah it)
  then show ?thesis
    using dicts_append [OF assms] by (simp add: iterproblems_Cons Let_def)
qed

section \<open>What the set-up of one getter gives\<close>

text \<open>With an \<^verbatim>\<open>optional\<close> key that is false, several names that are all in the field list
  give the getter of the tuple of their cells, in the order of the names; one name that
  is in the list gives the getter of its cell, whatever the key; one name that is not in
  the list is a \<^verbatim>\<open>FieldSelectionError\<close>.\<close>

lemma resolve_present: "set ss \<subseteq> set flds \<Longrightarrow> resolve flds ss = Inr (map (index flds) ss)"
  by (induction ss) auto

lemma resolve_absent: "\<not> set ss \<subseteq> set flds \<Longrightarrow> resolve flds ss = Inl ''FieldSelectionError''"
  by (induction ss) (auto split: sum.splits)

lemma getitems_Record:
  "getitems (Record row fs) is = Inr (map (\<lambda>i. if i < length row then row ! i else VNone) is)"
  by (induction "is") auto

lemma index_nth: "s \<in> set flds \<Longrightarrow> index flds s < length flds \<and> flds ! index flds s = s"
  by (induction flds) auto

lemma setup_getter_several:
  assumes "c_getter c = None" and "c_field c = Some (FNames (s1 # s2 # ss))"
    and "c_optional c = Some opt" and "\<not> truthy opt"
    and "set (s1 # s2 # ss) \<subseteq> set flds"
  shows "setup_getter flds c
         = Inr (c\<lparr>c_getter := Some (\<lambda>obj. case getitems obj (map (index flds) (s1 # s2 # ss)) of
                                           Inl e \<Rightarrow> Inl e | Inr vs \<Rightarrow> Inr (VTuple vs))\<rparr>)"
  using assms resolve_present [OF assms(5)] by (simp add: setup_getter_def)

lemma setup_getter_single:
  assumes "c_getter c = None" and "c_field c = Some (FName s)" and "s \<in> set flds"
  shows "setup_getter flds c = Inr (c\<lparr>c_getter := Some (\<lambda>obj. getitem obj (index flds s))\<rparr>)"
  using assms by (simp add: setup_getter_def)

lemma setup_getter_absent:
  assumes "c_getter c = None" and "c_field c = Some (FName s)" and "s \<notin> set flds"
    and "c_optional c = Some opt" and "\<not> truthy opt"
  shows "setup_getter flds c = Inl ''FieldSelectionError''"
  using assms by (simp add: setup_getter_def)

lemmas run_defs = iterproblems_def check_header_def working_copies_def copy_dicts_def
  setup_getter_def check_len_def check_constraint_def header_problem_def

section \<open>The end-to-end example\<close>

text \<open>
  C1. On the table with header \<^verbatim>\<open>('foo', 'bar')\<close> and the rows \<^verbatim>\<open>(1, 'a')\<close>,
  \<^verbatim>\<open>(-1, 'b')\<close>, \<^verbatim>\<open>(2, 'c', 'extra')\<close>, with the one constraint \<^verbatim>\<open>foo_pos\<close> on field
  \<^verbatim>\<open>foo\<close> (assertion \<^verbatim>\<open>v > 0\<close>) and the expected header \<^verbatim>\<open>('foo', 'bar')\<close>, iterating
  the problems view yields the report header and then exactly two problems, in this
  order: the failed assertion of \<^verbatim>\<open>foo_pos\<close> at row 2 with the value -1, and the row
  length problem at row 3 with the length 3. Row 3 has no \<^verbatim>\<open>foo_pos\<close> problem, and the
  run ends without an exception. The same records come out when no expected header is
  given.
\<close>

theorem end_to_end_foo_pos:
  "r_out (iter text_of [foo_pos]
            (validate foo_table (Some [0]) (Some [VStr ''foo'', VStr ''bar''])))
     = [Outhdr,
        Problem (VStr ''foo_pos'') 2 (Some (FName ''foo'')) (VInt (- 1)) ''AssertionError'',
        Problem (VStr ''__len__'') 3 None (VInt 3) ''AssertionError'']
   \<and> r_raised (iter text_of [foo_pos]
            (validate foo_table (Some [0]) (Some [VStr ''foo'', VStr ''bar'']))) = None
   \<and> r_out (iter text_of [foo_pos] (validate foo_table (Some [0]) None))
     = [Outhdr,
        Problem (VStr ''foo_pos'') 2 (Some (FName ''foo'')) (VInt (- 1)) ''AssertionError'',
        Problem (VStr ''__len__'') 3 None (VInt 3) ''AssertionError'']"
  by (simp add: iter_def validate_def iterproblems_def foo_table_def foo_pos_def
      check_header_def working_copies_def copy_dicts_def setup_getter_def check_len_def
      check_constraint_def)

section \<open>The header check\<close>

text \<open>
  C2, as the claim states it, fails on the kind of the header problem. With the expected
  header \<^verbatim>\<open>('a', 'b')\<close> on a table whose header is \<^verbatim>\<open>('a', 'c')\<close> the record after the
  report header is \<^verbatim>\<open>('__header__', 0, None, None, 'AssertionError')\<close>: the kind is the
  class name of the exception the failed \<^verbatim>\<open>assert\<close> raised, as in the docstring of
  \<^verbatim>\<open>validate\<close>. No record with the kind \<^verbatim>\<open>'HeaderMismatch'\<close> is yielded.
\<close>

theorem header_kind_counterexample:
  "r_out (iterproblems text_of [] ac_table None (Some [VStr ''a'', VStr ''b'']))
     = [Outhdr, Problem (VStr ''__header__'') 0 None VNone ''AssertionError'']
   \<and> Problem (VStr ''__header__'') 0 None VNone ''HeaderMismatch''
       \<notin> set (r_out (iterproblems text_of [] ac_table None (Some [VStr ''a'', VStr ''b''])))"
  by (simp add: run_defs ac_table_def)

text \<open>
  C2, amended. For every table with a header row and every expected header whose string
  forms differ from those of the actual header, the record right after the report header
  is \<^verbatim>\<open>('__header__', 0, None, None, 'AssertionError')\<close>; every record after it is a
  problem with a row index of at least 1, so it is the only header problem and the first
  problem. The effective field list is the string form of the expected header, whatever
  the comparison gave: the records after the header problem, the exception that ends the
  run (if any) and the store are those of the same run on the table whose actual header
  is the expected one.
\<close>

theorem header_mismatch_reported:
  assumes "map tt eh \<noteq> map tt ah"
  shows "r_out (iterproblems tt h (ah # it) constraints (Some eh))
           = Outhdr # Problem (VStr ''__header__'') 0 None VNone ''AssertionError''
               # drop 2 (r_out (iterproblems tt h (ah # it) constraints (Some eh)))
       \<and> list_all (\<lambda>p. p \<noteq> Outhdr \<and> 0 < p_row p)
            (drop 2 (r_out (iterproblems tt h (ah # it) constraints (Some eh))))
       \<and> snd (check_header tt ah (Some eh)) = map tt eh
       \<and> drop 2 (r_out (iterproblems tt h (ah # it) constraints (Some eh)))
           = tl (r_out (iterproblems tt h (eh # it) constraints (Some eh)))
       \<and> r_raised (iterproblems tt h (ah # it) constraints (Some eh))
           = r_raised (iterproblems tt h (eh # it) constraints (Some eh))
       \<and> r_heap (iterproblems tt h (ah # it) constraints (Some eh))
           = r_heap (iterproblems tt h (eh # it) constraints (Some eh))"
proof -
  have ch: "check_header tt ah (Some eh) = ([header_problem], map tt eh)"
    using assms by (simp add: check_header_def)
  have ch': "check_header tt eh (Some eh) = ([], map tt eh)"
    by (simp add: check_header_def)
  have rows: "list_all (\<lambda>p. p \<noteq> Outhdr \<and> 0 < p_row p) (scan flds cs 0 it)" for flds cs
    using scan_rows [of _ flds cs 0 it] by (auto simp: list_all_iff)
  show ?thesis
    using rows by (simp add: iterproblems_Cons ch ch' Let_def header_problem_def)
qed

theorem header_mismatch_reported_witness:
  "map text_of [VStr ''a'', VStr ''b''] \<noteq> map text_of [VStr ''a'', VStr ''c'']
   \<and> r_out (iterproblems text_of [] ([VStr ''a'', VStr ''c''] # [[VInt 1, VInt 2]]) None
        (Some [VStr ''a'', VStr ''b'']))
     = Outhdr # Problem (VStr ''__header__'') 0 None VNone ''AssertionError''
         # drop 2 (r_out (iterproblems text_of [] ([VStr ''a'', VStr ''c''] # [[VInt 1, VInt 2]])
              None (Some [VStr ''a'', VStr ''b''])))"
proof -
  have h: "map text_of [VStr ''a'', VStr ''b''] \<noteq> map text_of [VStr ''a'', VStr ''c'']"
    by simp
  show ?thesis
    by (rule conjI [OF h conjunct1 [OF header_mismatch_reported [OF h]]])
qed

section \<open>Optional constraints on an absent field\<close>

text \<open>
  C3 says that a constraint with \<^verbatim>\<open>optional\<close> true whose field is absent from the
  effective field list yields no problem for any row. The code only skips the set-up of
  its getter (\<^verbatim>\<open>continue\<close>); the constraint stays in the list, and the row loop checks
  it with the default getter \<^verbatim>\<open>lambda x: x\<close>, on the whole row. On the table with header
  \<^verbatim>\<open>('foo',)\<close> and the row \<^verbatim>\<open>('Y',)\<close>, the constraint \<^verbatim>\<open>baz_enum\<close> on the absent field
  \<^verbatim>\<open>baz\<close>, with \<^verbatim>\<open>optional=True\<close> and the assertion \<^verbatim>\<open>v in ['Y', 'N']\<close>, yields a
  problem for row 1 that carries the whole row as its value.
\<close>

theorem optional_absent_field_still_checked:
  "r_out (iterproblems text_of [baz_optional] y_table (Some [0]) None)
     = [Outhdr,
        Problem (VStr ''baz_enum'') 1 (Some (FName ''baz'')) (Record [VStr ''Y''] [''foo''])
          ''AssertionError'']
   \<and> r_raised (iterproblems text_of [baz_optional] y_table (Some [0]) None) = None"
  by (simp add: run_defs y_table_def baz_optional_def in_YN_def)

section \<open>One constraint on one row\<close>




text \<open>
  C5. For every constraint with a getter and every row on which this getter raises, the
  constraint yields exactly one problem for the row: its name, the row index, its field
  (or none), no value, and the class name of what the getter raised. Neither the test nor
  the assertion is evaluated: with any other test and assertion, or none, the result is
  the same.
\<close>

theorem extraction_failure:
  assumes "c_getter c = Some g" and "g row = Inl e"
  shows "check_constraint i row c
         = [Problem (case c_name c of None \<Rightarrow> VNone | Some n \<Rightarrow> n) (i + 1) (c_field c) VNone e]
       \<and> check_constraint i row (c\<lparr>c_test := t', c_assertion := a'\<rparr>) = check_constraint i row c"
  using assms by (simp add: check_constraint_def Let_def)

theorem extraction_failure_witness:
  "check_constraint 0 (Record [VInt 1, VStr ''a''] [''foo'', ''bar'']) foo_broken
   = [Problem (VStr ''foo_broken'') 1 (Some (FName ''foo'')) VNone ''KeyError'']
   \<and> check_constraint 0 (Record [VInt 1, VStr ''a''] [''foo'', ''bar''])
        (foo_broken\<lparr>c_test := None, c_assertion := None\<rparr>)
     = check_constraint 0 (Record [VInt 1, VStr ''a''] [''foo'', ''bar'']) foo_broken"
  using extraction_failure [of foo_broken "\<lambda>obj. Inl ''KeyError''"
      "Record [VInt 1, VStr ''a''] [''foo'', ''bar'']" "''KeyError''" 0 None None]
  by (simp add: foo_broken_def)

section \<open>The order of the problems\<close>

text \<open>
  C6. In every run the first record is the report header and all records after it are
  problems, in ascending order of their row indices. Only the first of them can have the
  row index 0, and then it is the header problem. In a run that ends without an
  exception, the problems of data row \<open>k + 1\<close> are, in this order, the row length
  problem (if any) and then the problems of the caller's constraints, in the order of
  the caller's list, each constraint checked as its working copy is after the set-up.
  The problems of a constraint carry the name and the field of that constraint.
\<close>

theorem problems_in_row_order:
  assumes "r = iterproblems tt h table constraints eh"
  shows "hd (r_out r) = Outhdr
       \<and> Outhdr \<notin> set (tl (r_out r))
       \<and> sorted (map p_row (tl (r_out r)))
       \<and> (\<forall>j<length (tl (r_out r)). p_row (tl (r_out r) ! j) = 0
            \<longrightarrow> j = 0 \<and> tl (r_out r) ! j = header_problem)
       \<and> (table = ah # it \<and> r_raised r = None \<and> k < length it \<longrightarrow>
            filter (\<lambda>p. p_row p = k + 1) (tl (r_out r))
            = check_len (length (snd (check_header tt ah eh))) k (it ! k)
              @ concat (map (\<lambda>a. check_constraint k (Record (it ! k) (snd (check_header tt ah eh)))
                                   (with_getter (snd (check_header tt ah eh)) (h ! a)))
                            (case constraints of None \<Rightarrow> [] | Some refs \<Rightarrow> refs)))
       \<and> list_all (\<lambda>p. p_name p = (case c_name c of None \<Rightarrow> VNone | Some n \<Rightarrow> n)
                        \<and> p_field p = c_field c)
            (check_constraint k row (with_getter flds c))"
proof (cases table)
  case Nil
  then show ?thesis
    using assms check_constraint_names [of "with_getter flds c" k row] with_getter_keeps [of flds c]
    by (simp add: iterproblems_Nil)
next
  case (Cons ah' it')
  define flds' where "flds' = snd (check_header tt ah' eh)"
  define cs where "cs = fst (setup_list flds' (dicts h constraints))"
  define e where "e = snd (setup_list flds' (dicts h constraints))"
  define ho where "ho = fst (check_header tt ah' eh)"
  define body where "body = (if e = None then scan flds' cs 0 it' else [])"
  have r: "r = \<lparr>r_out = Outhdr # ho @ body, r_raised = e, r_heap = h @ cs\<rparr>"
    using assms Cons
    by (simp add: iterproblems_Cons Let_def flds'_def cs_def e_def ho_def body_def)
  have tl: "tl (r_out r) = ho @ body" by (simp add: r)
  have ho: "ho = [] \<or> ho = [header_problem]"
    unfolding ho_def by (rule check_header_cases)
  have body: "\<forall>p\<in>set body. p \<noteq> Outhdr \<and> 0 < p_row p"
    unfolding body_def using scan_rows [of _ flds' cs 0 it'] by fastforce
  have sorted_body: "sorted (map p_row body)"
    unfolding body_def by (simp add: sorted_scan)
  have hp: "header_problem \<noteq> Outhdr" "p_row header_problem = 0"
    by (simp_all add: header_problem_def)
  have c1: "hd (r_out r) = Outhdr" by (simp add: r)
  have c2: "Outhdr \<notin> set (tl (r_out r))"
    using ho body hp by (auto simp: tl)
  have c3: "sorted (map p_row (tl (r_out r)))"
    using ho sorted_body hp by (auto simp: tl)
  have c4: "\<forall>j<length (tl (r_out r)). p_row (tl (r_out r) ! j) = 0
            \<longrightarrow> j = 0 \<and> tl (r_out r) ! j = header_problem"
  proof (intro allI impI)
    fix j assume j: "j < length (tl (r_out r))" and z: "p_row (tl (r_out r) ! j) = 0"
    show "j = 0 \<and> tl (r_out r) ! j = header_problem"
    proof (cases "j < length ho")
      case True
      then show ?thesis using ho by (auto simp: tl nth_append)
    next
      case False
      then have "(ho @ body) ! j \<in> set body"
        using j by (simp add: tl nth_append)
      then show ?thesis using body z by (auto simp: tl)
    qed
  qed
  have c5: "filter (\<lambda>p. p_row p = k + 1) (tl (r_out r))
            = check_len (length (snd (check_header tt ah eh))) k (it ! k)
              @ concat (map (\<lambda>a. check_constraint k (Record (it ! k) (snd (check_header tt ah eh)))
                                   (with_getter (snd (check_header tt ah eh)) (h ! a)))
                            (case constraints of None \<Rightarrow> [] | Some refs \<Rightarrow> refs))"
    if t: "table = ah # it" and nr: "r_raised r = None" and k: "k < length it"
  proof -
    have eq: "ah' = ah" "it' = it" using t Cons by simp_all
    have e: "e = None" using nr by (simp add: r)
    have cs: "cs = map (with_getter flds') (dicts h constraints)"
      unfolding cs_def using e [unfolded e_def] by (rule setup_list_pointwise)
    have "filter (\<lambda>p. p_row p = k + 1) ho = []"
      using ho hp by auto
    moreover have "filter (\<lambda>p. p_row p = k + 1) body
        = check_len (length flds') k (it ! k) @ concat (map (check_constraint k (Record (it ! k) flds')) cs)"
      using filter_scan [where k = k and it = it and flds = flds' and i = 0 and cs = cs] k
      by (simp add: body_def e eq)
    moreover have "map (check_constraint k (Record (it ! k) flds')) cs
                   = map (\<lambda>a. check_constraint k (Record (it ! k) flds') (with_getter flds' (h ! a)))
                       (case constraints of None \<Rightarrow> [] | Some refs \<Rightarrow> refs)"
      by (simp add: cs dicts_refs comp_def)
    ultimately show ?thesis
      by (simp only: tl filter_append flds'_def [symmetric] eq [symmetric]) (simp add: flds'_def eq)
  qed
  have c6: "list_all (\<lambda>p. p_name p = (case c_name c of None \<Rightarrow> VNone | Some n \<Rightarrow> n)
                        \<and> p_field p = c_field c)
            (check_constraint k row (with_getter flds c))"
    using check_constraint_names [of "with_getter flds c" k row] with_getter_keeps [of flds c]
    by simp
  show ?thesis
    by (intro conjI impI; (elim conjE)?; (rule c1 c2 c3 c4 c5 c6; assumption?))
qed

theorem problems_in_row_order_witness:
  "r_raised (iterproblems text_of [foo_pos, bar_yn] long_table (Some [0, 1]) None) = None
   \<and> sorted (map p_row
        (tl (r_out (iterproblems text_of [foo_pos, bar_yn] long_table (Some [0, 1]) None))))
   \<and> filter (\<lambda>p. p_row p = 2)
        (tl (r_out (iterproblems text_of [foo_pos, bar_yn] long_table (Some [0, 1]) None)))
     = [Problem (VStr ''__len__'') 2 None (VInt 3) ''AssertionError'',
        Problem (VStr ''foo_pos'') 2 (Some (FName ''foo'')) (VInt (- 1)) ''AssertionError'',
        Problem (VStr ''bar_yn'') 2 (Some (FName ''bar'')) (VStr ''x'') ''AssertionError'']"
proof -
  define r where "r = iterproblems text_of [foo_pos, bar_yn] long_table (Some [0, 1]) None"
  define ah where "ah = [VStr ''foo'', VStr ''bar'']"
  define it where "it = [[VInt 1, VStr ''Y''], [VInt (- 1), VStr ''x'', VStr ''extra'']]"
  note t = problems_in_row_order [OF r_def, where ah = ah and it = it and k = 1]
  have tab: "long_table = ah # it" by (simp add: long_table_def ah_def it_def)
  have nr: "r_raised r = None"
    by (simp add: r_def run_defs long_table_def foo_pos_def bar_yn_def)
  have k: "1 < length it" by (simp add: it_def)
  have srt: "sorted (map p_row (tl (r_out r)))" using t by simp
  have "filter (\<lambda>p. p_row p = 1 + 1) (tl (r_out r))
        = check_len (length (snd (check_header text_of ah None))) 1 (it ! 1)
          @ concat (map (\<lambda>a. check_constraint 1 (Record (it ! 1) (snd (check_header text_of ah None)))
                                   (with_getter (snd (check_header text_of ah None))
                                      ([foo_pos, bar_yn] ! a)))
                        (case Some [0, 1] of None \<Rightarrow> [] | Some refs \<Rightarrow> refs))"
    using t tab nr k by blast
  also have "\<dots> = [Problem (VStr ''__len__'') 2 None (VInt 3) ''AssertionError'',
        Problem (VStr ''foo_pos'') 2 (Some (FName ''foo'')) (VInt (- 1)) ''AssertionError'',
        Problem (VStr ''bar_yn'') 2 (Some (FName ''bar'')) (VStr ''x'') ''AssertionError'']"
    by (simp add: with_getter_def run_defs it_def ah_def foo_pos_def bar_yn_def in_YN_def)
  finally have fl: "filter (\<lambda>p. p_row p = 1 + 1) (tl (r_out r))
      = [Problem (VStr ''__len__'') 2 None (VInt 3) ''AssertionError'',
         Problem (VStr ''foo_pos'') 2 (Some (FName ''foo'')) (VInt (- 1)) ''AssertionError'',
         Problem (VStr ''bar_yn'') 2 (Some (FName ''bar'')) (VStr ''x'') ''AssertionError'']" .
  have two: "(1::nat) + 1 = 2" by simp
  show ?thesis
    unfolding r_def [symmetric] using nr srt fl [unfolded two] by (intro conjI)
qed

section \<open>Fields of several names\<close>

text \<open>
  C7 says that a constraint on several field names that are all in the effective field
  list gets the getter of the tuple of their values. The code first evaluates
  \<^verbatim>\<open>constraint['field'] not in flds and constraint['optional']\<close>: a collection of names
  is never an element of the field list, so the key \<^verbatim>\<open>optional\<close> is looked up, and a
  constraint without this key ends the run with \<^verbatim>\<open>KeyError\<close> before any row is
  scanned. On the table with header \<^verbatim>\<open>('a', 'b')\<close> and the row \<^verbatim>\<open>(1, 2)\<close>, the constraint
  \<^verbatim>\<open>dict(name='ab', field=('a', 'b'), assertion=...)\<close> gives the report header and then
  \<^verbatim>\<open>KeyError\<close>.
\<close>

theorem multi_field_without_optional_raises:
  "r_raised (iterproblems text_of [ab_pair] ab_table (Some [0]) None) = Some ''KeyError''
   \<and> r_out (iterproblems text_of [ab_pair] ab_table (Some [0]) None) = [Outhdr]"
  by (simp add: run_defs ab_table_def ab_pair_def)

section \<open>The caller's dictionaries\<close>

text \<open>
  C8. A run never changes a dictionary of the caller: the store after the run is the
  store before it, followed by the working copies. This holds for every table, list of
  constraints and expected header, also when the run ends with an exception.
\<close>

theorem callers_constraints_unchanged:
  "take (length h) (r_heap (iterproblems tt h table constraints eh)) = h
   \<and> length h \<le> length (r_heap (iterproblems tt h table constraints eh))"
proof (cases table)
  case Nil
  then show ?thesis by (simp add: iterproblems_Nil)
next
  case (Cons ah it)
  then show ?thesis by (simp add: iterproblems_Cons Let_def)
qed

section \<open>Iterating a view twice\<close>

text \<open>
  C9, as the claim states it, fails when a callable keeps state. The test \<^verbatim>\<open>once\<close>
  raises on its first call only. On the table with header \<^verbatim>\<open>('foo',)\<close> and the row
  \<^verbatim>\<open>(1,)\<close>, which is the same in both iterations, the first iteration of the view yields
  a problem of \<^verbatim>\<open>foo_once\<close> for row 1 and the second yields none.
\<close>

theorem stateful_test_counterexample:
  "st_out (st_iter text_of [foo_once] False (validate one_table (Some [0]) None))
     = [Outhdr, Problem (VStr ''foo_once'') 1 (Some (FName ''foo'')) (VInt 1) ''ValueError'']
   \<and> st_out (st_iter text_of
        (st_store (st_iter text_of [foo_once] False (validate one_table (Some [0]) None)))
        (st_state (st_iter text_of [foo_once] False (validate one_table (Some [0]) None)))
        (validate one_table (Some [0]) None))
     = [Outhdr]"
  by (simp add: st_iter_def validate_def st_iterproblems_def check_header_def
      st_working_copies_def st_copy_dicts_def st_setup_getter_def st_check_constraint_def
      check_len_def one_table_def foo_once_def once_def)

text \<open>
  C9, amended. For every table that yields the same rows on each iteration and
  constraints whose getters, tests and assertions are stateless (what they return or
  raise depends on their argument only, and they change no state), iterating the same
  problems view twice yields two identical sequences of records, in the same order, and
  both iterations end in the same way. The second iteration runs on the store and the
  state that the first one left.
\<close>

theorem iterating_twice_stateless:
  assumes "refs_ok h (pv_constraints pv)"
  shows "st_out (st_iter tt (st_store (st_iter tt (map stateless h) s pv))
                   (st_state (st_iter tt (map stateless h) s pv)) pv)
           = st_out (st_iter tt (map stateless h) s pv)
       \<and> st_raised (st_iter tt (st_store (st_iter tt (map stateless h) s pv))
                   (st_state (st_iter tt (map stateless h) s pv)) pv)
           = st_raised (st_iter tt (map stateless h) s pv)"
proof -
  define r where "r = iterproblems tt h (pv_table pv) (pv_constraints pv) (pv_header pv)"
  obtain cs where cs: "r_heap r = h @ cs"
    unfolding r_def using iterproblems_heap_append by blast
  have first: "st_iter tt (map stateless h) s pv
               = \<lparr>st_out = r_out r, st_raised = r_raised r,
                  st_store = map stateless (h @ cs), st_state = s\<rparr>"
    using st_iterproblems_stateless [OF assms, of tt s "pv_table pv" "pv_header pv"]
    by (simp add: st_iter_def r_def [symmetric] cs)
  have ok: "refs_ok (h @ cs) (pv_constraints pv)"
    using assms by (rule refs_ok_append)
  have second: "st_iter tt (map stateless (h @ cs)) s pv
               = \<lparr>st_out = r_out r, st_raised = r_raised r,
                  st_store = map stateless
                    (r_heap (iterproblems tt (h @ cs) (pv_table pv) (pv_constraints pv) (pv_header pv))),
                  st_state = s\<rparr>"
    using st_iterproblems_stateless [OF ok, of tt s "pv_table pv" "pv_header pv"]
      iterproblems_on_longer_store [OF assms, of tt cs "pv_table pv" "pv_header pv"]
    by (simp add: st_iter_def r_def)
  show ?thesis by (simp add: first second del: map_append)
qed

theorem iterating_twice_stateless_witness:
  "refs_ok [foo_pos] (pv_constraints (validate foo_table (Some [0]) None))
   \<and> st_out (st_iter text_of
        (st_store (st_iter text_of (map stateless [foo_pos]) False
                     (validate foo_table (Some [0]) None)))
        (st_state (st_iter text_of (map stateless [foo_pos]) False
                     (validate foo_table (Some [0]) None)))
        (validate foo_table (Some [0]) None))
     = st_out (st_iter text_of (map stateless [foo_pos]) False
                 (validate foo_table (Some [0]) None))"
proof -
  have h: "refs_ok [foo_pos] (pv_constraints (validate foo_table (Some [0]) None))"
    by (simp add: refs_ok_def validate_def)
  show ?thesis
    by (rule conjI [OF h conjunct1 [OF iterating_twice_stateless [OF h]]])
qed

section \<open>A missing \<open>optional\<close> key\<close>

text \<open>
  C10, as the claim states it, fails for a constraint that brings its own getter: the
  set-up skips it (\<^verbatim>\<open>if 'getter' not in constraint\<close>), no key is looked up, and the row
  loop yields its problems. The constraint below has the field \<^verbatim>\<open>('a', 'b')\<close>, which is
  not an element of the field list, and no \<^verbatim>\<open>optional\<close> key.
\<close>

theorem supplied_getter_counterexample:
  "c_field ab_pair_getter = Some (FNames [''a'', ''b''])
   \<and> c_optional ab_pair_getter = None
   \<and> \<not> field_in_flds (FNames [''a'', ''b'']) [''a'', ''b'']
   \<and> r_raised (iterproblems text_of [ab_pair_getter] ab_table (Some [0]) None) = None
   \<and> r_out (iterproblems text_of [ab_pair_getter] ab_table (Some [0]) None)
     = [Outhdr,
        Problem (VStr ''ab'') 1 (Some (FNames [''a'', ''b'']))
          (Record [VInt 1, VInt 2] [''a'', ''b'']) ''AssertionError'']"
  by (simp add: run_defs ab_table_def ab_pair_def ab_pair_getter_def in_YN_def)

text \<open>
  C10, amended. On a table with a header row, let a constraint have no getter, a field
  that is not an element of the effective field list, and no \<^verbatim>\<open>optional\<close> key, and let
  the set-up of every constraint declared before it succeed. Then the run ends with
  \<^verbatim>\<open>KeyError\<close> during the set-up of the getters: it yields the report header and the
  header problem (if any), and no problem of a row. A collection of names is never an
  element of the field list, also when all its names are in the list.
\<close>

theorem missing_optional_key_raises:
  assumes "constraints = Some (pre @ a # post)"
    and "list_all (\<lambda>b. \<not> isl (setup_getter (snd (check_header tt ah eh)) (h ! b))) pre"
    and "c_getter (h ! a) = None"
    and "c_field (h ! a) = Some f"
    and "\<not> field_in_flds f (snd (check_header tt ah eh))"
    and "c_optional (h ! a) = None"
  shows "r_raised (iterproblems tt h (ah # it) constraints eh) = Some ''KeyError''
       \<and> r_out (iterproblems tt h (ah # it) constraints eh) = Outhdr # fst (check_header tt ah eh)
       \<and> \<not> field_in_flds (FNames ss) flds"
proof -
  let ?flds = "snd (check_header tt ah eh)"
  have d: "dicts h constraints = map ((!) h) pre @ h ! a # map ((!) h) post"
    using assms(1) by (simp add: dicts_def)
  have pre: "list_all (\<lambda>c. \<not> isl (setup_getter ?flds c)) (map ((!) h) pre)"
    using assms(2) by (simp add: list_all_iff)
  have "setup_getter ?flds (h ! a) = Inl ''KeyError''"
    using assms(3-6) by (rule setup_getter_KeyError)
  then have "snd (setup_list ?flds (dicts h constraints)) = Some ''KeyError''"
    unfolding d using pre by (intro setup_list_raises)
  then show ?thesis by (simp add: iterproblems_Cons Let_def)
qed

theorem missing_optional_key_raises_witness:
  "c_getter ([foo_pos, ab_pair] ! 1) = None
   \<and> c_field ([foo_pos, ab_pair] ! 1) = Some (FNames [''a'', ''b''])
   \<and> c_optional ([foo_pos, ab_pair] ! 1) = None
   \<and> r_raised (iterproblems text_of [foo_pos, ab_pair]
        ([VStr ''a'', VStr ''b''] # [[VInt 1, VInt 2]]) (Some [1, 0])
        (Some [VStr ''a'', VStr ''b''])) = Some ''KeyError''
   \<and> r_out (iterproblems text_of [foo_pos, ab_pair]
        ([VStr ''a'', VStr ''b''] # [[VInt 1, VInt 2]]) (Some [1, 0])
        (Some [VStr ''a'', VStr ''b''])) = [Outhdr]"
proof -
  have 1: "list_all (\<lambda>b. \<not> isl (setup_getter (snd (check_header text_of [VStr ''a'', VStr ''b'']
      (Some [VStr ''a'', VStr ''b'']))) ([foo_pos, ab_pair] ! b))) []"
    by simp
  have 2: "c_getter ([foo_pos, ab_pair] ! 1) = None"
    and 3: "c_field ([foo_pos, ab_pair] ! 1) = Some (FNames [''a'', ''b''])"
    and 4: "\<not> field_in_flds (FNames [''a'', ''b''])
             (snd (check_header text_of [VStr ''a'', VStr ''b''] (Some [VStr ''a'', VStr ''b''])))"
    and 5: "c_optional ([foo_pos, ab_pair] ! 1) = None"
    by (simp_all add: ab_pair_def)
  from missing_optional_key_raises [OF refl 1 2 3 4 5, where post = "[0]"] 2 3 5
  show ?thesis by (simp add: check_header_def)
qed

end
